theory Spec2Isabelle
  imports Complex_Main
begin

section \<open>Money helpers (src/services/cart.service.js)\<close>

text \<open>
  JavaScript numbers are modelled in exact arithmetic: an amount, a stock or a quantity
  is a \<^typ>\<open>rat\<close> (a stock or a quantity need not be whole), a number of cents that
  \<open>Math.round\<close> gave is an \<^typ>\<open>int\<close>. Floating-point rounding error and \<open>NaN\<close>
  amounts are outside the model.
  \<open>Math.round\<close> rounds a half towards plus infinity, \<open>Math.trunc\<close> cuts towards zero.
\<close>

definition Math_round :: "rat \<Rightarrow> int" where
  "Math_round x = \<lfloor>x + 1 / 2\<rfloor>"

definition Math_trunc :: "rat \<Rightarrow> int" where
  "Math_trunc x = (if 0 \<le> x then \<lfloor>x\<rfloor> else \<lceil>x\<rceil>)"

definition toCents :: "rat \<Rightarrow> int" where
  "toCents v = Math_round (v * 100)"

definition fromCents :: "int \<Rightarrow> rat" where
  "fromCents cents = of_int (Math_round (of_int cents)) / 100"

text \<open>The three cent amounts that \<open>computeUnitPrice\<close> returns.\<close>

record unit_price =
  unitBaseCents :: int
  unitFinalCents :: int
  unitDiscountCents :: int

text \<open>
  A product document, as far as the cart reads it. A field that may be absent
  (\<open>undefined\<close> or \<open>null\<close>) is an option; \<open>p_id\<close> is \<open>String(product._id)\<close>, and an
  absent or empty one is falsy.
\<close>

record product =
  p_id :: "string option"
  p_title :: "string option"
  p_imageUrl :: "string option"
  p_active :: "bool option"
  p_stock :: "rat option"
  p_price :: "rat option"
  p_promoEnabled :: bool
  p_promoPct :: "rat option"

text \<open>
  \<open>computeUnitPrice\<close> reads \<open>price\<close>, \<open>promoEnabled\<close> and \<open>promoPct\<close> of its argument,
  which is a product document or a cart line (a line has no promotion fields).
\<close>

definition computeUnitPrice :: "rat option \<Rightarrow> bool \<Rightarrow> rat option \<Rightarrow> unit_price" where
  "computeUnitPrice price_opt promoEnabled promoPct_opt =
     (let base = toCents (case price_opt of Some v \<Rightarrow> v | None \<Rightarrow> 0);
          hasPromo = (promoEnabled \<and> (case promoPct_opt of Some pc \<Rightarrow> 0 < pc | None \<Rightarrow> False))
      in if \<not> hasPromo
         then \<lparr>unitBaseCents = base, unitFinalCents = base, unitDiscountCents = 0\<rparr>
         else
           (let pct = min (max (case promoPct_opt of Some pc \<Rightarrow> pc | None \<Rightarrow> 0) 0) 100;
                final = Math_round (of_int base * (1 - pct / 100))
            in \<lparr>unitBaseCents = base, unitFinalCents = final,
                unitDiscountCents = max (base - final) 0\<rparr>))"

section \<open>The session cart\<close>

text \<open>
  A cart line. The service writes \<open>unitBaseCents\<close>, \<open>unitFinalCents\<close> and
  \<open>unitDiscountCents\<close> together, so the line carries them together in \<open>cents\<close>, or not
  at all (a line of an older session). \<open>adjusted\<close> is the \<open>_adjusted\<close> flag.
\<close>

record item =
  productId :: string
  title :: string
  imageUrl :: "string option"
  qty :: rat
  stock :: "rat option"
  price :: rat
  promoPrice :: "rat option"
  cents :: "unit_price option"
  lineSubtotal :: rat
  adjusted :: bool

record cart =
  items :: "item list"
  count :: rat
  subtotal :: rat
  discount :: rat
  total :: rat
  subtotalCents :: int
  discountCents :: int
  totalCents :: int

datatype cart_error = INVALID_PRODUCT | NOT_ACTIVE | OUT_OF_STOCK | INVALID_QTY

text \<open>A JavaScript number passed as a requested quantity.\<close>

datatype jsnumber = Num rat | NaN | PosInfinity | NegInfinity

text \<open>The cart that \<open>ensureCart\<close> puts into a session that has none.\<close>

definition ensureCart :: cart where
  "ensureCart = \<lparr>items = [], count = 0, subtotal = 0, discount = 0, total = 0,
                  subtotalCents = 0, discountCents = 0, totalCents = 0\<rparr>"

text \<open>The price snapshot that \<open>recalc\<close>, \<open>add\<close> and \<open>setQty\<close> write into a line.\<close>

definition setPrices :: "unit_price \<Rightarrow> item \<Rightarrow> item" where
  "setPrices up it =
     it\<lparr>price := fromCents (unitBaseCents up),
        promoPrice := (if unitFinalCents up \<noteq> unitBaseCents up
                       then Some (fromCents (unitFinalCents up)) else None),
        cents := Some up\<rparr>"

definition orElse :: "'a option \<Rightarrow> 'a \<Rightarrow> 'a" where
  "orElse x d = (case x of Some v \<Rightarrow> v | None \<Rightarrow> d)"

text \<open>
  The callback that \<open>recalc\<close> maps over the lines: \<open>None\<close> is a removed line.
  \<open>pm\<close> is \<open>opts.productsMap\<close> when it is a \<open>Map\<close>. A line without cent amounts
  gets them from its own \<open>price\<close> (\<open>ensureCents\<close>).
\<close>

definition ensureCents :: "item \<Rightarrow> item" where
  "ensureCents it =
     (case cents it of
        Some up \<Rightarrow> it
      | None \<Rightarrow> setPrices (computeUnitPrice (Some (price it)) False None) it)"

text \<open>The cent amounts of a line, once \<open>recalc\<close> has made sure they are there.\<close>

definition unitCents :: "item \<Rightarrow> unit_price" where
  "unitCents it =
     (case cents it of
        Some up \<Rightarrow> up
      | None \<Rightarrow> computeUnitPrice (Some (price it)) False None)"

definition lineFinalCents :: "item \<Rightarrow> int" where
  "lineFinalCents it = max (Math_round (of_int (unitFinalCents (unitCents it)) * qty it)) 0"

definition lineDiscountCents :: "item \<Rightarrow> int" where
  "lineDiscountCents it = max (Math_round (of_int (unitDiscountCents (unitCents it)) * qty it)) 0"

text \<open>
  What the callback does to a line when the map holds a fresh product for it: title, image
  and prices are taken from the product, and the quantity is cut down to the fresh stock.
\<close>

definition refreshLine :: "product \<Rightarrow> item \<Rightarrow> item" where
  "refreshLine f it =
     (let it' = setPrices (computeUnitPrice (p_price f) (p_promoEnabled f) (p_promoPct f))
                  (it\<lparr>title := orElse (p_title f) (title it),
                      imageUrl := (case p_imageUrl f of Some u \<Rightarrow> Some u
                                   | None \<Rightarrow> imageUrl it)\<rparr>);
          stockFresh = (case p_stock f of Some s \<Rightarrow> max s 0 | None \<Rightarrow> orElse (stock it) 0);
          it'' = it'\<lparr>stock := Some stockFresh\<rparr>
      in if stockFresh < qty it'' then it''\<lparr>qty := stockFresh, adjusted := True\<rparr> else it'')"

definition recalcItem :: "(string \<Rightarrow> product option) option \<Rightarrow> item \<Rightarrow> item option" where
  "recalcItem pm it =
     (let fresh = (case pm of None \<Rightarrow> None | Some m \<Rightarrow> m (productId it));
          it1 = (case fresh of None \<Rightarrow> it | Some f \<Rightarrow> refreshLine f it);
          stockNow = (case fresh of
                        Some f \<Rightarrow> (case p_stock f of Some s \<Rightarrow> max s 0 | None \<Rightarrow> 0)
                      | None \<Rightarrow> (case stock it1 of Some s \<Rightarrow> max s 0 | None \<Rightarrow> 0))
      in if stockNow \<le> 0 \<or> qty it1 \<le> 0 then None
         else
           (let it2 = ensureCents it1
            in Some (it2\<lparr>lineSubtotal := fromCents (lineFinalCents it2)\<rparr>)))"

text \<open>
  \<open>recalc\<close> keeps the lines the callback returns, and adds up the final amount, the
  discount and the quantity of each of them.
\<close>

definition recalc :: "cart \<Rightarrow> (string \<Rightarrow> product option) option \<Rightarrow> cart" where
  "recalc c pm =
     (let kept = List.map_filter (recalcItem pm) (items c);
          subtotalC = sum_list (map lineFinalCents kept);
          discountC = sum_list (map lineDiscountCents kept);
          cnt = sum_list (map qty kept);
          totalC = max subtotalC 0
      in c\<lparr>items := kept, count := cnt,
           subtotal := fromCents subtotalC, discount := fromCents discountC,
           total := fromCents totalC,
           subtotalCents := subtotalC, discountCents := discountC, totalCents := totalC\<rparr>)"

fun findIndex :: "('a \<Rightarrow> bool) \<Rightarrow> 'a list \<Rightarrow> nat option" where
  "findIndex P [] = None"
| "findIndex P (x # xs) =
     (if P x then Some 0 else (case findIndex P xs of None \<Rightarrow> None | Some i \<Rightarrow> Some (Suc i)))"

text \<open>
  The two branches of \<open>add\<close> after its checks: the line of the product, found by
  \<open>findIndex\<close>, gets the summed quantity cut down to the stock and a fresh snapshot;
  without such a line, a new one is pushed.
\<close>

definition mergeOrAppend :: "cart \<Rightarrow> product \<Rightarrow> string \<Rightarrow> int \<Rightarrow> rat \<Rightarrow> item list" where
  "mergeOrAppend c product pid addQty stk =
     (let up = computeUnitPrice (p_price product) (p_promoEnabled product) (p_promoPct product)
      in case findIndex (\<lambda>it. productId it = pid) (items c) of
           Some idx \<Rightarrow>
             (let it = items c ! idx;
                  it' = setPrices up
                          (it\<lparr>qty := min (qty it + of_int addQty) stk,
                              title := orElse (p_title product) (title it),
                              imageUrl := (case p_imageUrl product of Some u \<Rightarrow> Some u
                                           | None \<Rightarrow> imageUrl it)\<rparr>)
              in (items c)[idx := it'\<lparr>stock := Some stk\<rparr>])
         | None \<Rightarrow>
             items c @
             [setPrices up
                \<lparr>productId = pid,
                 title = orElse (p_title product) ''Producto'',
                 imageUrl = p_imageUrl product,
                 qty = min (of_int addQty) stk,
                 stock = Some stk,
                 price = 0, promoPrice = None, cents = None,
                 lineSubtotal = 0, adjusted = False\<rparr>])"

text \<open>\<open>Number.isFinite(qty) ? Math.trunc(qty) : 1\<close>\<close>

definition addQtyOf :: "jsnumber \<Rightarrow> int" where
  "addQtyOf q = (case q of Num r \<Rightarrow> Math_trunc r | _ \<Rightarrow> 1)"

text \<open>
  The operations return the session cart after the call and the \<open>CartError\<close> thrown, if
  any. Every \<open>throw\<close> of the source comes before the first write to the cart. In \<open>add\<close>
  the stock is \<open>Math.max(Number(product.stock ?? 0), 0)\<close>, whole or not.
\<close>

definition add :: "cart \<Rightarrow> product \<Rightarrow> jsnumber \<Rightarrow> cart \<times> cart_error option" where
  "add c product q =
     (case p_id product of
        None \<Rightarrow> (c, Some INVALID_PRODUCT)
      | Some pid \<Rightarrow>
          if pid = [] then (c, Some INVALID_PRODUCT)
          else if p_active product = Some False then (c, Some NOT_ACTIVE)
          else
            (let stk = max (orElse (p_stock product) 0) 0
             in if stk \<le> 0 then (c, Some OUT_OF_STOCK)
                else
                  (let addQty = addQtyOf q
                   in if addQty \<le> 0 then (c, Some INVALID_QTY)
                      else (recalc (c\<lparr>items := mergeOrAppend c product pid addQty stk\<rparr>) None,
                            None))))"

definition setQty :: "cart \<Rightarrow> string \<Rightarrow> jsnumber \<Rightarrow> product option \<Rightarrow> cart \<times> cart_error option"
  where
  "setQty c pid q product =
     (case findIndex (\<lambda>it. productId it = pid) (items c) of
        None \<Rightarrow> (c, None)
      | Some idx \<Rightarrow>
          (case q of
             Num r \<Rightarrow>
               (let it = items c ! idx; newQty = Math_trunc r
                in if newQty < 1
                   then (recalc (c\<lparr>items := take idx (items c) @ drop (Suc idx) (items c)\<rparr>) None,
                         None)
                   else
                     (let fresh_stock = (case product of None \<Rightarrow> None | Some p \<Rightarrow> p_stock p);
                          maxStock = (case fresh_stock of Some s \<Rightarrow> max s 0
                                      | None \<Rightarrow> orElse (stock it) 0);
                          it1 = (case (product, fresh_stock) of
                                   (Some p, Some s) \<Rightarrow>
                                     (setPrices
                                        (computeUnitPrice (p_price p) (p_promoEnabled p)
                                           (p_promoPct p))
                                        (it\<lparr>title := orElse (p_title p) (title it),
                                            imageUrl := (case p_imageUrl p of Some u \<Rightarrow> Some u
                                                         | None \<Rightarrow> imageUrl it)\<rparr>))
                                     \<lparr>stock := Some maxStock\<rparr>
                                 | _ \<Rightarrow> it);
                          it2 = it1\<lparr>qty := min (of_int newQty) (max maxStock 0)\<rparr>
                      in (recalc (c\<lparr>items := (items c)[idx := it2]\<rparr>) None, None)))
           | _ \<Rightarrow> (c, Some INVALID_QTY)))"

definition remove :: "cart \<Rightarrow> string \<Rightarrow> cart" where
  "remove c pid = recalc (c\<lparr>items := filter (\<lambda>it. productId it \<noteq> pid) (items c)\<rparr>) None"

definition clear :: "cart \<Rightarrow> cart" where
  "clear c = recalc (c\<lparr>items := []\<rparr>) None"

text \<open>The carts that the public operations of \<open>CartService\<close> produce from a new session.\<close>

inductive reachable :: "cart \<Rightarrow> bool" where
  r_new: "reachable ensureCart"
| r_add: "reachable c \<Longrightarrow> reachable (fst (add c product q))"
| r_setQty: "reachable c \<Longrightarrow> reachable (fst (setQty c pid q product))"
| r_remove: "reachable c \<Longrightarrow> reachable (remove c pid)"
| r_clear: "reachable c \<Longrightarrow> reachable (clear c)"
| r_recalc: "reachable c \<Longrightarrow> reachable (recalc c pm)"


section \<open>Orders (src/models/Order.js)\<close>

text \<open>
  The identifiers of orders, users and addresses (\<open>ObjectId\<close>) are natural numbers;
  the identifier of a product stays the string that the cart holds. All of them are
  taken as well formed, so that no cast to \<open>ObjectId\<close> fails, except where noted.
  Times are milliseconds. The type \<open>'d\<close> is the type of digests.
\<close>

type_synonym oid = nat

datatype status = created | approved | pending | rejected | abandoned | expired

datatype shipping = pickup | delivery

record order_item =
  oi_productId :: string
  oi_title :: string
  oi_price :: rat
  oi_qty :: rat
  oi_subtotal :: rat

record 'd order =
  o_id :: oid
  o_userId :: oid
  o_items :: "order_item list"
  o_subtotal :: rat
  o_discount :: rat
  o_total :: rat
  o_shippingMethod :: shipping
  o_shippingFee :: rat
  o_shippingAddressId :: "oid option"
  o_status :: status
  o_mpPreferenceId :: "string option"
  o_mpPaymentId :: "string option"
  o_cartHash :: "'d option"
  o_attemptCount :: int
  o_lastAttemptAt :: "int option"
  o_expiresAt :: "int option"
  o_createdAt :: int

datatype db_error = ValidationError | DuplicateKey | CastError

text \<open>
  The validators of \<open>OrderItemSchema\<close> and \<open>OrderSchema\<close>: a title is trimmed and
  required, so it must hold a character that is not white space; amounts have a minimum
  of 0, a quantity of 1; an order holds at least one item. The title is kept as the cart
  gave it.
\<close>

definition isBlank :: "string \<Rightarrow> bool" where
  "isBlank t =
     list_all (\<lambda>ch. ch \<in> set [CHR '' '', CHR 0x09, CHR 0x0A, CHR 0x0B, CHR 0x0C, CHR 0x0D]) t"

definition validItem :: "order_item \<Rightarrow> bool" where
  "validItem i = (\<not> isBlank (oi_title i) \<and> 0 \<le> oi_price i \<and> 1 \<le> oi_qty i \<and> 0 \<le> oi_subtotal i)"

definition validOrder :: "'d order \<Rightarrow> bool" where
  "validOrder d =
     (o_items d \<noteq> [] \<and> list_all validItem (o_items d) \<and> 0 \<le> o_subtotal d \<and>
      0 \<le> o_discount d \<and> 0 \<le> o_total d \<and> 0 \<le> o_shippingFee d)"

text \<open>
  The collection, in insertion order. The partial unique index on \<open>userId\<close> for the
  documents with status \<open>created\<close> rejects a write that would leave two such documents
  of one user.
\<close>

definition violatesIndex :: "'d order list \<Rightarrow> 'd order \<Rightarrow> bool" where
  "violatesIndex s d =
     (o_status d = created \<and>
      list_ex (\<lambda>x. o_id x \<noteq> o_id d \<and> o_userId x = o_userId d \<and> o_status x = created) s)"

definition updateById :: "'d order list \<Rightarrow> 'd order \<Rightarrow> 'd order list" where
  "updateById s d = map (\<lambda>x. if o_id x = o_id d then d else x) s"

text \<open>
  \<open>doc.save()\<close> of a loaded document: the validators run first, then the store checks
  the index and replaces the document that has the same \<open>_id\<close>.
\<close>

definition Order_save :: "'d order list \<Rightarrow> 'd order \<Rightarrow> db_error + 'd order list" where
  "Order_save s d =
     (if \<not> validOrder d then Inl ValidationError
      else if violatesIndex s d then Inl DuplicateKey
      else Inr (updateById s d))"

definition newId :: "'d order list \<Rightarrow> oid" where
  "newId s = Suc (fold max (map o_id s) 0)"

text \<open>\<open>Order.create\<close>: the document gets a new identifier.\<close>

definition Order_create :: "'d order list \<Rightarrow> 'd order \<Rightarrow> db_error + ('d order list \<times> 'd order)" where
  "Order_create s d =
     (let d' = d\<lparr>o_id := newId s\<rparr>
      in if \<not> validOrder d' then Inl ValidationError
         else if violatesIndex s d' then Inl DuplicateKey
         else Inr (s @ [d'], d'))"

text \<open>
  \<open>Order.findOne({ userId, status: 'created' }).sort({ createdAt: -1 })\<close>: among equal
  \<open>createdAt\<close> the first in the collection is taken.
\<close>

fun newest :: "'d order list \<Rightarrow> 'd order option" where
  "newest [] = None"
| "newest (x # xs) =
     (case newest xs of
        None \<Rightarrow> Some x
      | Some y \<Rightarrow> if o_createdAt x < o_createdAt y then Some y else Some x)"

definition openOrders :: "'d order list \<Rightarrow> oid \<Rightarrow> 'd order list" where
  "openOrders s userId = filter (\<lambda>x. o_userId x = userId \<and> o_status x = created) s"

definition findOpen :: "'d order list \<Rightarrow> oid \<Rightarrow> 'd order option" where
  "findOpen s userId = newest (openOrders s userId)"

definition findById :: "'d order list \<Rightarrow> oid \<Rightarrow> 'd order option" where
  "findById s i = find (\<lambda>x. o_id x = i) s"

definition findByPreference :: "'d order list \<Rightarrow> string \<Rightarrow> 'd order option" where
  "findByPreference s pref = find (\<lambda>x. o_mpPreferenceId x = Some pref) s"

section \<open>Checkout (src/controllers/order.controller.js)\<close>

text \<open>
  \<open>req.session.cart\<close> as the controller reads it: the totals may be absent
  (\<open>??\<close>). \<open>sessionCart\<close> is what \<open>CartService\<close> leaves in the session.
\<close>

record session_cart =
  sc_items :: "item list"
  sc_subtotal :: "rat option"
  sc_discount :: "rat option"
  sc_total :: "rat option"

definition sessionCart :: "cart \<Rightarrow> session_cart" where
  "sessionCart c =
     \<lparr>sc_items = items c, sc_subtotal = Some (subtotal c), sc_discount = Some (discount c),
      sc_total = Some (total c)\<rparr>"

record body =
  b_shippingMethod :: "string option"
  b_addressId :: "oid option"
  b_shippingAddressId :: "oid option"

text \<open>\<open>Number(x.toFixed(2))\<close>: the sign is set apart, a half is rounded up.\<close>

definition toFixed2 :: "rat \<Rightarrow> rat" where
  "toFixed2 x =
     (if x < 0 then - (of_int (Math_round (- x * 100)) / 100)
      else of_int (Math_round (x * 100)) / 100)"

text \<open>
  The object that \<open>computeCartHash\<close> serialises. \<open>JSON.stringify\<close> followed by the
  SHA-256 hex digest is library code: it is the parameter \<open>H\<close>, a function of that
  object.
\<close>

type_synonym hash_item = "string option \<times> string \<times> rat \<times> rat"

type_synonym hash_payload = "hash_item list \<times> shipping \<times> rat"

definition hashItem :: "item \<Rightarrow> hash_item" where
  "hashItem i =
     (if productId i = [] then None else Some (productId i), title i,
      (if price i = 0 then 0 else price i), (if qty i = 0 then 0 else qty i))"

text \<open>The fields of a line that \<open>computeCartHash\<close> reads.\<close>

definition lineKey :: "item \<Rightarrow> string \<times> string \<times> rat \<times> rat" where
  "lineKey i = (productId i, title i, price i, qty i)"

definition computeCartHash :: "(hash_payload \<Rightarrow> 'd) \<Rightarrow> session_cart \<Rightarrow> shipping \<Rightarrow> rat \<Rightarrow> 'd" where
  "computeCartHash H cart shippingMethod shippingFee =
     H (map hashItem (sc_items cart), shippingMethod, shippingFee)"

text \<open>The values that \<open>getOrCreateOrderFromCart\<close> freezes before it looks at the store.\<close>

record frozen =
  f_items :: "order_item list"
  f_subtotal :: rat
  f_discount :: rat
  f_total :: rat
  f_shippingMethod :: shipping
  f_shippingFee :: rat
  f_shippingAddressId :: "oid option"

definition orderItem :: "item \<Rightarrow> order_item" where
  "orderItem i =
     \<lparr>oi_productId = productId i, oi_title = title i, oi_price = price i, oi_qty = qty i,
      oi_subtotal = toFixed2 (price i * qty i)\<rparr>"

definition freeze :: "session_cart \<Rightarrow> body \<Rightarrow> frozen" where
  "freeze cart b =
     (let shippingMethod = (if b_shippingMethod b = Some ''delivery'' then delivery else pickup);
          shippingFee = (if shippingMethod = delivery then 2000 else 0);
          its = map orderItem (sc_items cart);
          sub = toFixed2 (case sc_subtotal cart of Some v \<Rightarrow> v
                          | None \<Rightarrow> sum_list (map oi_subtotal its));
          disc = toFixed2 (orElse (sc_discount cart) 0);
          baseTotal = toFixed2 (case sc_total cart of Some v \<Rightarrow> v | None \<Rightarrow> sub - disc);
          tot = toFixed2 (baseTotal + shippingFee)
      in \<lparr>f_items = its, f_subtotal = sub, f_discount = disc, f_total = tot,
          f_shippingMethod = shippingMethod, f_shippingFee = shippingFee,
          f_shippingAddressId = (case b_addressId b of Some a \<Rightarrow> Some a
                                 | None \<Rightarrow> b_shippingAddressId b)\<rparr>)"

text \<open>The frozen values pass the validators of the schema.\<close>

definition validFrozen :: "frozen \<Rightarrow> bool" where
  "validFrozen fz =
     (f_items fz \<noteq> [] \<and> list_all validItem (f_items fz) \<and> 0 \<le> f_subtotal fz \<and>
      0 \<le> f_discount fz \<and> 0 \<le> f_total fz \<and> 0 \<le> f_shippingFee fz)"

text \<open>The document of step 5, and the fields that the reuse of step 3 rewrites.\<close>

definition createdOrder :: "oid \<Rightarrow> frozen \<Rightarrow> 'd \<Rightarrow> int \<Rightarrow> 'd order" where
  "createdOrder userId fz cartHash now =
     \<lparr>o_id = 0, o_userId = userId, o_items = f_items fz,
      o_subtotal = f_subtotal fz, o_discount = f_discount fz, o_total = f_total fz,
      o_shippingMethod = f_shippingMethod fz, o_shippingFee = f_shippingFee fz,
      o_shippingAddressId = f_shippingAddressId fz, o_status = created,
      o_mpPreferenceId = None, o_mpPaymentId = None,
      o_cartHash = Some cartHash, o_attemptCount = 0, o_lastAttemptAt = Some now,
      o_expiresAt = Some (now + 24 * 60 * 60 * 1000), o_createdAt = now\<rparr>"

definition reusedOrder :: "'d order \<Rightarrow> frozen \<Rightarrow> int \<Rightarrow> 'd order" where
  "reusedOrder x fz now =
     x\<lparr>o_attemptCount := o_attemptCount x + 1,
       o_lastAttemptAt := Some now,
       o_subtotal := f_subtotal fz,
       o_discount := f_discount fz,
       o_shippingFee := f_shippingFee fz,
       o_shippingMethod := f_shippingMethod fz,
       o_shippingAddressId := f_shippingAddressId fz,
       o_total := f_total fz,
       o_items := f_items fz\<rparr>"

definition createIn :: "'d order list \<Rightarrow> 'd order \<Rightarrow> 'd order list \<times> (db_error + 'd order)" where
  "createIn s d = (case Order_create s d of Inl e \<Rightarrow> (s, Inl e) | Inr (s', d') \<Rightarrow> (s', Inr d'))"

definition isExpiredAt :: "int \<Rightarrow> 'd order \<Rightarrow> bool" where
  "isExpiredAt now x = (case o_expiresAt x of Some e \<Rightarrow> e \<le> now | None \<Rightarrow> False)"

text \<open>
  \<open>getOrCreateOrderFromCart\<close> at time \<open>now\<close>: the store after the call and the order
  returned, or the error thrown. A failing \<open>save\<close> of the superseded order is swallowed.
\<close>

definition getOrCreateOrderFromCart ::
  "(hash_payload \<Rightarrow> 'd) \<Rightarrow> 'd order list \<Rightarrow> int \<Rightarrow> oid \<Rightarrow> session_cart \<Rightarrow> body
     \<Rightarrow> 'd order list \<times> (db_error + 'd order)" where
  "getOrCreateOrderFromCart H s now userId cart b =
     (let fz = freeze cart b;
          cartHash = computeCartHash H cart (f_shippingMethod fz) (f_shippingFee fz)
      in case findOpen s userId of
           None \<Rightarrow> createIn s (createdOrder userId fz cartHash now)
         | Some x \<Rightarrow>
             if \<not> isExpiredAt now x \<and> o_cartHash x = Some cartHash
             then (case Order_save s (reusedOrder x fz now) of
                     Inl e \<Rightarrow> (s, Inl e)
                   | Inr s' \<Rightarrow> (s', Inr (reusedOrder x fz now)))
             else createIn
                    (case Order_save s
                            (x\<lparr>o_status := (if isExpiredAt now x then expired else abandoned)\<rparr>) of
                       Inl e \<Rightarrow> s
                     | Inr s' \<Rightarrow> s')
                    (createdOrder userId fz cartHash now))"

text \<open>A sequence of checkouts of one user, one at a time: each is a time, a cart and a body.\<close>

fun checkouts ::
  "(hash_payload \<Rightarrow> 'd) \<Rightarrow> 'd order list \<Rightarrow> oid \<Rightarrow> (int \<times> session_cart \<times> body) list
     \<Rightarrow> 'd order list" where
  "checkouts H s userId [] = s"
| "checkouts H s userId ((now, cart, b) # cs) =
     checkouts H (fst (getOrCreateOrderFromCart H s now userId cart b)) userId cs"

section \<open>Return URLs of the payment gateway\<close>

text \<open>
  The parameters that \<open>getMpReturnParams\<close> extracts. \<open>external_reference\<close> is absent,
  a string that is no \<open>ObjectId\<close> (\<open>findById\<close> throws a cast error), or an identifier.
\<close>

datatype extref = NoRef | BadRef | Ref oid

record mp_return =
  paymentId :: "string option"
  mp_status :: "string option"
  preferenceId :: "string option"
  externalReference :: extref

text \<open>The HTTP status and the view rendered.\<close>

datatype response = Rendered nat string

text \<open>\<open>a || b\<close> on strings that may be absent: the empty string is falsy.\<close>

definition strOr :: "string option \<Rightarrow> string option \<Rightarrow> string option" where
  "strOr a b = (case a of Some v \<Rightarrow> (if v = [] then b else Some v) | None \<Rightarrow> b)"

definition resolveOrder :: "'d order list \<Rightarrow> mp_return \<Rightarrow> db_error + 'd order option" where
  "resolveOrder s p =
     (let byPreference = (case strOr (preferenceId p) None of
                            Some pr \<Rightarrow> findByPreference s pr
                          | None \<Rightarrow> None)
      in case externalReference p of
           BadRef \<Rightarrow> Inl CastError
         | Ref i \<Rightarrow> (case findById s i of Some x \<Rightarrow> Inr (Some x) | None \<Rightarrow> Inr byPreference)
         | NoRef \<Rightarrow> Inr byPreference)"

text \<open>\<open>updateOrderMpFields\<close> is \<open>Order.findByIdAndUpdate\<close> with the three fields.\<close>

definition updateOrderMpFields ::
  "'d order list \<Rightarrow> oid \<Rightarrow> string option \<Rightarrow> string option \<Rightarrow> status \<Rightarrow> 'd order list" where
  "updateOrderMpFields s i payment preference st =
     map (\<lambda>x. if o_id x = i
              then x\<lparr>o_mpPaymentId := payment, o_mpPreferenceId := preference, o_status := st\<rparr>
              else x) s"

text \<open>
  The handlers take the store and \<open>req.session.cart\<close> and give both back with the
  response.
\<close>

definition getCheckoutSuccess ::
  "'d order list \<Rightarrow> cart option \<Rightarrow> mp_return \<Rightarrow> 'd order list \<times> cart option \<times> response" where
  "getCheckoutSuccess s sess p =
     (case resolveOrder s p of
        Inl e \<Rightarrow> (s, sess, Rendered 500 ''checkout/failure'')
      | Inr None \<Rightarrow> (s, sess, Rendered 404 ''checkout/failure'')
      | Inr (Some x) \<Rightarrow>
          (let newStatus = (if mp_status p = Some ''approved'' then approved else o_status x)
           in (updateOrderMpFields s (o_id x) (strOr (paymentId p) (o_mpPaymentId x))
                 (strOr (preferenceId p) (o_mpPreferenceId x)) newStatus,
               (if newStatus = approved then None else sess),
               Rendered 200 ''checkout/success'')))"

definition getCheckoutPending ::
  "'d order list \<Rightarrow> cart option \<Rightarrow> mp_return \<Rightarrow> 'd order list \<times> cart option \<times> response" where
  "getCheckoutPending s sess p =
     (case resolveOrder s p of
        Inl e \<Rightarrow> (s, sess, Rendered 500 ''checkout/failure'')
      | Inr None \<Rightarrow> (s, sess, Rendered 404 ''checkout/failure'')
      | Inr (Some x) \<Rightarrow>
          (updateOrderMpFields s (o_id x) (strOr (paymentId p) (o_mpPaymentId x))
             (strOr (preferenceId p) (o_mpPreferenceId x)) pending,
           sess, Rendered 200 ''checkout/pending''))"

definition getCheckoutFailure ::
  "'d order list \<Rightarrow> cart option \<Rightarrow> mp_return \<Rightarrow> 'd order list \<times> cart option \<times> response" where
  "getCheckoutFailure s sess p =
     (case resolveOrder s p of
        Inl e \<Rightarrow> (s, sess, Rendered 500 ''checkout/failure'')
      | Inr None \<Rightarrow> (s, sess, Rendered 200 ''checkout/failure'')
      | Inr (Some x) \<Rightarrow>
          (updateOrderMpFields s (o_id x) (strOr (paymentId p) (o_mpPaymentId x))
             (strOr (preferenceId p) (o_mpPreferenceId x)) rejected,
           sess, Rendered 200 ''checkout/failure''))"

section \<open>Example data\<close>

text \<open>A product at 1000 with a promotion of 25 percent and five units in stock.\<close>

definition mate :: product where
  "mate = \<lparr>p_id = Some ''a1'', p_title = Some ''Mate'', p_imageUrl = None,
            p_active = Some True, p_stock = Some 5, p_price = Some 1000,
            p_promoEnabled = True, p_promoPct = Some 25\<rparr>"

text \<open>The cart of a new session after two units of it were added.\<close>

definition twoMates :: cart where
  "twoMates = fst (add ensureCart mate (Num 2))"

text \<open>The cart after a third unit, and a cart of two units without the promotion.\<close>

definition threeMates :: cart where
  "threeMates = fst (add twoMates mate (Num 1))"

definition twoPlainMates :: cart where
  "twoPlainMates = fst (add ensureCart (mate\<lparr>p_promoEnabled := False\<rparr>) (Num 2))"

text \<open>A digest function without collisions: the serialised object itself.\<close>

definition plainHash :: "hash_payload \<Rightarrow> hash_payload" where
  "plainHash x = x"

text \<open>A checkout form without fields: pick-up.\<close>

definition noBody :: body where
  "noBody = \<lparr>b_shippingMethod = None, b_addressId = None, b_shippingAddressId = None\<rparr>"

text \<open>The order of user 7 for \<open>twoMates\<close>, created at time 1000 in an empty store.\<close>

definition firstOrder :: "hash_payload order" where
  "firstOrder =
     \<lparr>o_id = 1, o_userId = 7,
      o_items = [\<lparr>oi_productId = ''a1'', oi_title = ''Mate'', oi_price = 1000, oi_qty = 2,
                  oi_subtotal = 2000\<rparr>],
      o_subtotal = 1500, o_discount = 500, o_total = 1500,
      o_shippingMethod = pickup, o_shippingFee = 0, o_shippingAddressId = None,
      o_status = created, o_mpPreferenceId = None, o_mpPaymentId = None,
      o_cartHash = Some ([(Some ''a1'', ''Mate'', 1000, 2)], pickup, 0),
      o_attemptCount = 0, o_lastAttemptAt = Some 1000,
      o_expiresAt = Some 86401000, o_createdAt = 1000\<rparr>"

text \<open>The same order once the payment was approved.\<close>

definition approvedOrder :: "hash_payload order" where
  "approvedOrder = firstOrder\<lparr>o_status := approved\<rparr>"

text \<open>A return of the gateway for order 1 that reports \<open>pending\<close>.\<close>

definition pendingReturn :: mp_return where
  "pendingReturn = \<lparr>paymentId = Some ''p9'', mp_status = Some ''pending'', preferenceId = None,
                     externalReference = Ref 1\<rparr>"

section \<open>Properties of the cart\<close>

lemma Math_round_of_int: "Math_round (of_int n) = n"
  unfolding Math_round_def by linarith

lemma Math_trunc_of_int: "Math_trunc (of_int n) = n"
  by (simp add: Math_trunc_def)

lemma fromCents_eq: "fromCents c = of_int c / 100"
  by (simp add: fromCents_def Math_round_of_int)

lemma sum_lineFinal_nonneg: "0 \<le> sum_list (map lineFinalCents xs)"
  by (induction xs) (auto simp: lineFinalCents_def)

lemma recalc_total: "total (recalc c pm) = subtotal (recalc c pm)"
  using sum_lineFinal_nonneg[of "List.map_filter (recalcItem pm) (items c)"]
  by (simp add: recalc_def Let_def max_def)

lemma recalc_totalCents: "totalCents (recalc c pm) = subtotalCents (recalc c pm)"
  using sum_lineFinal_nonneg[of "List.map_filter (recalcItem pm) (items c)"]
  by (simp add: recalc_def Let_def max_def)

subsection \<open>A line that \<open>recalc\<close> keeps is a fixed point of its callback\<close>

lemma ensureCents_cents: "cents it = Some up \<Longrightarrow> ensureCents it = it"
  by (simp add: ensureCents_def)

lemma ensureCents_sel [simp]:
  "productId (ensureCents it) = productId it"
  "qty (ensureCents it) = qty it"
  "stock (ensureCents it) = stock it"
  "cents (ensureCents it) = Some (unitCents it)"
  by (simp_all add: ensureCents_def setPrices_def unitCents_def split: option.splits)

lemma lineFinal_upd [simp]: "lineFinalCents (it\<lparr>lineSubtotal := x\<rparr>) = lineFinalCents it"
  by (simp add: lineFinalCents_def unitCents_def split: option.splits)

lemma lineFinal_ensure [simp]: "lineFinalCents (ensureCents it) = lineFinalCents it"
  by (simp add: lineFinalCents_def unitCents_def[of "ensureCents it"])

lemma ensureCents_upd:
  "ensureCents (it\<lparr>lineSubtotal := x\<rparr>) = (ensureCents it)\<lparr>lineSubtotal := x\<rparr>"
  by (simp add: ensureCents_def setPrices_def split: option.splits)

lemma ensureCents_idem [simp]: "ensureCents (ensureCents it) = ensureCents it"
  by (rule ensureCents_cents[of _ "unitCents it"]) simp

lemma recalcItem_None:
  "recalcItem None it =
     (if orElse (stock it) 0 \<le> 0 \<or> qty it \<le> 0 then None
      else Some ((ensureCents it)\<lparr>lineSubtotal := fromCents (lineFinalCents it)\<rparr>))"
  by (auto simp: recalcItem_def Let_def orElse_def max_def split: option.splits)

lemma recalcItem_no_fresh:
  "(case pm of None \<Rightarrow> None | Some m \<Rightarrow> m (productId it)) = None
     \<Longrightarrow> recalcItem pm it = recalcItem None it"
  by (simp add: recalcItem_def)

lemma recalcItem_None_fix:
  assumes "recalcItem None it = Some it'"
  shows "recalcItem None it' = Some it'"
proof -
  from assms have ok: "\<not> (orElse (stock it) 0 \<le> 0 \<or> qty it \<le> 0)"
    and it': "it' = (ensureCents it)\<lparr>lineSubtotal := fromCents (lineFinalCents it)\<rparr>"
    by (auto simp: recalcItem_None split: if_splits)
  have "ensureCents it' = it'"
    by (simp add: it' ensureCents_upd)
  moreover have "lineFinalCents it' = lineFinalCents it" by (simp add: it')
  moreover have "stock it' = stock it" "qty it' = qty it" by (simp_all add: it')
  ultimately show ?thesis using ok
    by (simp add: recalcItem_None) (simp add: it')
qed

lemma refreshLine_sel [simp]:
  "productId (refreshLine f it) = productId it"
  "cents (refreshLine f it) = Some (computeUnitPrice (p_price f) (p_promoEnabled f) (p_promoPct f))"
  by (simp_all add: refreshLine_def Let_def setPrices_def)

lemma refreshLine_upd:
  "refreshLine f (it\<lparr>lineSubtotal := x\<rparr>) = (refreshLine f it)\<lparr>lineSubtotal := x\<rparr>"
  by (cases "p_stock f"; cases "p_imageUrl f")
     (simp_all add: refreshLine_def Let_def setPrices_def)

lemma refreshLine_idem: "refreshLine f (refreshLine f it) = refreshLine f it"
  by (cases "p_stock f"; cases "p_title f"; cases "p_imageUrl f")
     (simp_all add: refreshLine_def Let_def setPrices_def orElse_def)

lemma recalcItem_fresh:
  assumes "m (productId it) = Some f"
  shows "recalcItem (Some m) it =
     (if orElse (p_stock f) 0 \<le> 0 \<or> qty (refreshLine f it) \<le> 0 then None
      else Some ((refreshLine f it)
                   \<lparr>lineSubtotal := fromCents (lineFinalCents (refreshLine f it))\<rparr>))"
  using assms
  by (auto simp: recalcItem_def Let_def orElse_def max_def ensureCents_cents split: option.splits)

lemma recalcItem_fresh_fix:
  assumes m: "m (productId it) = Some f" and r: "recalcItem (Some m) it = Some it'"
  shows "recalcItem (Some m) it' = Some it'"
proof -
  let ?r = "refreshLine f it"
  from r have ok: "\<not> (orElse (p_stock f) 0 \<le> 0 \<or> qty ?r \<le> 0)"
    and it': "it' = ?r\<lparr>lineSubtotal := fromCents (lineFinalCents ?r)\<rparr>"
    using recalcItem_fresh[of m it f] m by (auto split: if_splits)
  have m': "m (productId it') = Some f" using m by (simp add: it')
  have rr: "refreshLine f it' = it'"
    by (simp add: it' refreshLine_upd refreshLine_idem)
  have "qty it' = qty ?r" by (simp add: it')
  moreover have "it'\<lparr>lineSubtotal := fromCents (lineFinalCents it')\<rparr> = it'"
    by (simp add: it')
  ultimately show ?thesis using ok recalcItem_fresh[of m it' f] m'
    by (simp add: rr)
qed

lemma recalcItem_fix:
  assumes "recalcItem pm it = Some it'"
  shows "recalcItem pm it' = Some it'"
proof (cases "case pm of None \<Rightarrow> None | Some m \<Rightarrow> m (productId it)")
  case None
  then have e: "recalcItem pm it = recalcItem None it" by (rule recalcItem_no_fresh)
  with assms have f: "recalcItem None it' = Some it'" by (simp add: recalcItem_None_fix)
  from assms e have "productId it' = productId it"
    by (auto simp: recalcItem_None split: if_splits)
  with None have "(case pm of None \<Rightarrow> None | Some m \<Rightarrow> m (productId it')) = None"
    by (simp split: option.splits)
  then have "recalcItem pm it' = recalcItem None it'"
    by (rule recalcItem_no_fresh)
  with f show ?thesis by simp
next
  case (Some f)
  then obtain m where "pm = Some m" "m (productId it) = Some f"
    by (cases pm) auto
  with assms show ?thesis by (simp add: recalcItem_fresh_fix)
qed

lemma map_filter_fix:
  assumes "\<And>x y. f x = Some y \<Longrightarrow> f y = Some y"
  shows "List.map_filter f (List.map_filter f xs) = List.map_filter f xs"
  using assms by (induction xs) (auto simp: List.map_filter_simps split: option.splits)


text \<open>
  C9. Calling \<open>recalc\<close> twice in a row with the same products map (or none) gives the cart
  that the first call gave: the same items, item count, subtotal, discount and total.
\<close>

theorem recalc_idempotent: "recalc (recalc c pm) pm = recalc c pm"
  by (simp add: recalc_def Let_def map_filter_fix[of "recalcItem pm", OF recalcItem_fix])

theorem recalc_idempotent_witness:
  "recalc (recalc twoMates (Some (\<lambda>i. if i = ''a1'' then Some (mate\<lparr>p_stock := Some 1\<rparr>) else None)))
     (Some (\<lambda>i. if i = ''a1'' then Some (mate\<lparr>p_stock := Some 1\<rparr>) else None))
   = recalc twoMates (Some (\<lambda>i. if i = ''a1'' then Some (mate\<lparr>p_stock := Some 1\<rparr>) else None))
   \<and> map qty (items (recalc twoMates
         (Some (\<lambda>i. if i = ''a1'' then Some (mate\<lparr>p_stock := Some 1\<rparr>) else None)))) = [1]"
proof -
  have "map qty (items (recalc twoMates
         (Some (\<lambda>i. if i = ''a1'' then Some (mate\<lparr>p_stock := Some 1\<rparr>) else None)))) = [1]"
    unfolding twoMates_def mate_def by code_simp
  then show ?thesis
    using recalc_idempotent[of twoMates
        "Some (\<lambda>i. if i = ''a1'' then Some (mate\<lparr>p_stock := Some 1\<rparr>) else None)"]
    by simp
qed

subsection \<open>The total of a reachable cart\<close>

lemma add_cases:
  "fst (add c p q) = c \<or> (\<exists>its. fst (add c p q) = recalc (c\<lparr>items := its\<rparr>) None)"
  by (auto simp: add_def Let_def split: option.splits)

lemma setQty_cases:
  "fst (setQty c pid q p) = c \<or>
   (\<exists>its. fst (setQty c pid q p) = recalc (c\<lparr>items := its\<rparr>) None)"
  by (auto simp: setQty_def Let_def split: option.splits jsnumber.splits)

lemma reachable_totals:
  "reachable c \<Longrightarrow> total c = subtotal c \<and> totalCents c = subtotalCents c"
proof (induction rule: reachable.induct)
  case r_new
  show ?case by (simp add: ensureCart_def)
next
  case (r_add c product q)
  then show ?case
    using add_cases[of c product q] by (auto simp: recalc_total recalc_totalCents)
next
  case (r_setQty c pid q product)
  then show ?case
    using setQty_cases[of c pid q product] by (auto simp: recalc_total recalc_totalCents)
next
  case (r_remove c pid)
  show ?case by (simp add: remove_def recalc_total recalc_totalCents)
next
  case (r_clear c)
  show ?case by (simp add: clear_def recalc_total recalc_totalCents)
next
  case (r_recalc c pm)
  show ?case by (simp add: recalc_total recalc_totalCents)
qed



subsection \<open>\<open>add\<close>\<close>





lemma add_failure: "snd (add c p q) \<noteq> None \<Longrightarrow> fst (add c p q) = c"
  by (auto simp: add_def Let_def split: option.splits if_splits)





subsection \<open>The lines of a reachable cart\<close>











subsection \<open>The error table of \<open>add\<close>\<close>

text \<open>
  C7. For every cart, product document and requested quantity \<open>n\<close>, a whole number:
  \<open>add\<close> fails with \<open>INVALID_PRODUCT\<close> when the product has no identifier (absent or
  empty); else with \<open>NOT_ACTIVE\<close> when \<open>active\<close> is false; else with \<open>OUT_OF_STOCK\<close> when
  the stock (none counts as 0) is not above 0; else with \<open>INVALID_QTY\<close> when \<open>n\<close> is 0 or
  less; and succeeds otherwise. Every failure leaves the cart as it was.
\<close>

theorem add_error_table:
  "(p_id p = None \<or> p_id p = Some [] \<longrightarrow> add c p (Num (of_int n)) = (c, Some INVALID_PRODUCT)) \<and>
   (p_id p \<noteq> None \<and> p_id p \<noteq> Some [] \<and> p_active p = Some False
      \<longrightarrow> add c p (Num (of_int n)) = (c, Some NOT_ACTIVE)) \<and>
   (p_id p \<noteq> None \<and> p_id p \<noteq> Some [] \<and> p_active p \<noteq> Some False \<and> orElse (p_stock p) 0 \<le> 0
      \<longrightarrow> add c p (Num (of_int n)) = (c, Some OUT_OF_STOCK)) \<and>
   (p_id p \<noteq> None \<and> p_id p \<noteq> Some [] \<and> p_active p \<noteq> Some False \<and> 0 < orElse (p_stock p) 0 \<and>
    n \<le> 0
      \<longrightarrow> add c p (Num (of_int n)) = (c, Some INVALID_QTY)) \<and>
   (p_id p \<noteq> None \<and> p_id p \<noteq> Some [] \<and> p_active p \<noteq> Some False \<and> 0 < orElse (p_stock p) 0 \<and>
    0 < n
      \<longrightarrow> snd (add c p (Num (of_int n))) = None) \<and>
   (snd (add c p (Num (of_int n))) \<noteq> None \<longrightarrow> fst (add c p (Num (of_int n))) = c)"
proof -
  have q: "addQtyOf (Num (of_int n)) = n"
    by (simp add: addQtyOf_def Math_trunc_of_int)
  have s: "max (orElse (p_stock p) 0) 0 \<le> 0 \<longleftrightarrow> orElse (p_stock p) 0 \<le> 0"
    by (simp add: max_def)
  show ?thesis
    using add_failure[of c p "Num (of_int n)"]
    by (cases "p_id p") (auto simp: add_def Let_def q s)
qed

theorem add_error_table_witness:
  "add twoMates (mate\<lparr>p_id := None\<rparr>) (Num (of_int 1)) = (twoMates, Some INVALID_PRODUCT) \<and>
   add twoMates (mate\<lparr>p_id := Some []\<rparr>) (Num (of_int 1)) = (twoMates, Some INVALID_PRODUCT) \<and>
   add twoMates (mate\<lparr>p_active := Some False\<rparr>) (Num (of_int 1)) = (twoMates, Some NOT_ACTIVE) \<and>
   add twoMates (mate\<lparr>p_stock := Some 0\<rparr>) (Num (of_int 1)) = (twoMates, Some OUT_OF_STOCK) \<and>
   add twoMates mate (Num (of_int 0)) = (twoMates, Some INVALID_QTY) \<and>
   snd (add twoMates mate (Num (of_int 1))) = None \<and>
   map qty (items (fst (add twoMates mate (Num (of_int 1))))) = [3]"
proof -
  have 1: "p_id (mate\<lparr>p_id := None\<rparr>) = None" "p_id (mate\<lparr>p_id := Some []\<rparr>) = Some []"
    by simp_all
  have 2: "p_id (mate\<lparr>p_active := Some False\<rparr>) \<noteq> None \<and>
           p_id (mate\<lparr>p_active := Some False\<rparr>) \<noteq> Some [] \<and>
           p_active (mate\<lparr>p_active := Some False\<rparr>) = Some False"
    by (simp add: mate_def)
  have 3: "p_id (mate\<lparr>p_stock := Some 0\<rparr>) \<noteq> None \<and>
           p_id (mate\<lparr>p_stock := Some 0\<rparr>) \<noteq> Some [] \<and>
           p_active (mate\<lparr>p_stock := Some 0\<rparr>) \<noteq> Some False \<and>
           orElse (p_stock (mate\<lparr>p_stock := Some 0\<rparr>)) 0 \<le> 0"
    by (simp add: mate_def orElse_def)
  have 4: "p_id mate \<noteq> None \<and> p_id mate \<noteq> Some [] \<and> p_active mate \<noteq> Some False \<and>
           0 < orElse (p_stock mate) 0"
    by (simp add: mate_def orElse_def)
  have 5: "map qty (items (fst (add twoMates mate (Num (of_int 1))))) = [3]"
    by code_simp
  have a: "add twoMates (mate\<lparr>p_id := None\<rparr>) (Num (of_int 1)) = (twoMates, Some INVALID_PRODUCT)"
    using add_error_table[of "mate\<lparr>p_id := None\<rparr>" twoMates 1] 1 by blast
  have b: "add twoMates (mate\<lparr>p_id := Some []\<rparr>) (Num (of_int 1)) = (twoMates, Some INVALID_PRODUCT)"
    using add_error_table[of "mate\<lparr>p_id := Some []\<rparr>" twoMates 1] 1 by blast
  have c: "add twoMates (mate\<lparr>p_active := Some False\<rparr>) (Num (of_int 1)) = (twoMates, Some NOT_ACTIVE)"
    using add_error_table[of "mate\<lparr>p_active := Some False\<rparr>" twoMates 1] 2 by blast
  have d: "add twoMates (mate\<lparr>p_stock := Some 0\<rparr>) (Num (of_int 1)) = (twoMates, Some OUT_OF_STOCK)"
    using add_error_table[of "mate\<lparr>p_stock := Some 0\<rparr>" twoMates 1] 3 by blast
  have e: "add twoMates mate (Num (of_int 0)) = (twoMates, Some INVALID_QTY)"
    using add_error_table[of mate twoMates 0] 4 by blast
  have f: "snd (add twoMates mate (Num (of_int 1))) = None"
    using add_error_table[of mate twoMates 1] 4 by simp
  from a b c d e f 5 show ?thesis by blast
qed

subsection \<open>The quantity after \<open>add\<close>\<close>




section \<open>Properties of the checkout\<close>

subsection \<open>The store\<close>

lemma newest_mem: "newest xs = Some x \<Longrightarrow> x \<in> set xs"
  by (induction xs arbitrary: x) (auto split: option.splits if_splits)

lemma newest_None: "newest xs = None \<longleftrightarrow> xs = []"
  by (cases xs) (auto split: option.splits)

lemma findOpen_Some:
  "findOpen s u = Some x \<Longrightarrow> x \<in> set s \<and> o_userId x = u \<and> o_status x = created"
  by (auto simp: findOpen_def openOrders_def dest: newest_mem)

lemma findOpen_None: "findOpen s u = None \<Longrightarrow> openOrders s u = []"
  by (simp add: findOpen_def newest_None)

lemma findOpen_single:
  assumes "length (openOrders s u) \<le> 1" "findOpen s u = Some x"
  shows "openOrders s u = [x]"
proof -
  from assms(2) have "x \<in> set (openOrders s u)"
    by (simp add: findOpen_def newest_mem)
  with assms(1) show ?thesis
    by (cases "openOrders s u") auto
qed

lemma single_findOpen: "openOrders s u = [x] \<Longrightarrow> findOpen s u = Some x"
  by (simp add: findOpen_def)

lemma ids_updateById: "map o_id (updateById s d) = map o_id s"
  by (induction s) (auto simp: updateById_def)

lemma same_id_eq:
  "distinct (map o_id s) \<Longrightarrow> x \<in> set s \<Longrightarrow> y \<in> set s \<Longrightarrow> o_id y = o_id x \<Longrightarrow> y = x"
  by (auto simp: distinct_map inj_on_def)



lemma openOrders_update_same:
  assumes d: "distinct (map o_id s)" and x: "x \<in> set s" and i: "o_id x' = o_id x"
    and p: "(o_userId x' = u \<and> o_status x' = created) = (o_userId x = u \<and> o_status x = created)"
  shows "openOrders (updateById s x') u = updateById (openOrders s u) x'"
proof -
  have "\<And>y. y \<in> set s \<Longrightarrow>
      (o_userId (if o_id y = o_id x' then x' else y) = u \<and>
       o_status (if o_id y = o_id x' then x' else y) = created)
      = (o_userId y = u \<and> o_status y = created)"
    using same_id_eq[OF d x] i p by auto
  then have "filter ((\<lambda>y. o_userId y = u \<and> o_status y = created) \<circ> (\<lambda>y. if o_id y = o_id x' then x' else y)) s
      = filter (\<lambda>y. o_userId y = u \<and> o_status y = created) s"
    by (intro filter_cong) (simp_all add: comp_def)
  then show ?thesis
    unfolding openOrders_def updateById_def filter_map by simp
qed

lemma openOrders_update_closed:
  assumes o: "openOrders s u = [x]" and i: "o_id x' = o_id x" and c: "o_status x' \<noteq> created"
  shows "openOrders (updateById s x') u = []"
proof -
  have "\<And>y. y \<in> set s \<Longrightarrow> o_userId y = u \<Longrightarrow> o_status y = created \<Longrightarrow> y = x"
  proof -
    fix y assume "y \<in> set s" "o_userId y = u" "o_status y = created"
    then have "y \<in> set (openOrders s u)" by (simp add: openOrders_def)
    with o show "y = x" by simp
  qed
  with i c show ?thesis
    by (auto simp: openOrders_def updateById_def filter_empty_conv)
qed

lemma fold_max_ge: "(a::nat) \<le> fold max xs a \<and> (\<forall>x\<in>set xs. x \<le> fold max xs a)"
proof (induction xs arbitrary: a)
  case Nil show ?case by simp
next
  case (Cons y ys)
  from Cons[of "max y a"] show ?case by auto
qed

lemma newId_fresh: "x \<in> set s \<Longrightarrow> o_id x < newId s"
  using fold_max_ge[of 0 "map o_id s"] by (auto simp: newId_def less_Suc_eq_le)

lemma validOrder_created [simp]:
  "validOrder ((createdOrder u fz h now)\<lparr>o_id := i\<rparr>) = validFrozen fz"
  by (simp add: validOrder_def validFrozen_def createdOrder_def)

lemma validOrder_reused [simp]: "validOrder (reusedOrder x fz now) = validFrozen fz"
  by (simp add: validOrder_def validFrozen_def reusedOrder_def)

lemma violatesIndex_iff:
  "violatesIndex s d \<longleftrightarrow>
     o_status d = created \<and> (\<exists>y\<in>set s. o_id y \<noteq> o_id d \<and> o_userId y = o_userId d \<and> o_status y = created)"
  by (auto simp: violatesIndex_def list_ex_iff)

subsection \<open>At most one open order\<close>

lemma createIn_cases:
  "(\<exists>e. createIn s d = (s, Inl e)) \<or>
   (createIn s d = (s @ [d\<lparr>o_id := newId s\<rparr>], Inr (d\<lparr>o_id := newId s\<rparr>)) \<and>
    validOrder (d\<lparr>o_id := newId s\<rparr>) \<and> \<not> violatesIndex s (d\<lparr>o_id := newId s\<rparr>))"
  by (simp add: createIn_def Order_create_def Let_def)



lemma no_violation_no_open:
  assumes "\<not> violatesIndex s (d\<lparr>o_id := newId s\<rparr>)" "o_status d = created"
  shows "openOrders s (o_userId d) = []"
  using assms newId_fresh[of _ s]
  by (fastforce simp: violatesIndex_iff openOrders_def filter_empty_conv)

lemma createIn_inv:
  assumes d: "distinct (map o_id s)" and l: "length (openOrders s u) \<le> 1"
    and du: "o_userId d = u" and dc: "o_status d = created"
  shows "distinct (map o_id (fst (createIn s d))) \<and> length (openOrders (fst (createIn s d)) u) \<le> 1"
proof -
  consider (err) e where "createIn s d = (s, Inl e)"
    | (ok) "createIn s d = (s @ [d\<lparr>o_id := newId s\<rparr>], Inr (d\<lparr>o_id := newId s\<rparr>))"
        "\<not> violatesIndex s (d\<lparr>o_id := newId s\<rparr>)"
    using createIn_cases[of s d] by blast
  then show ?thesis
  proof cases
    case err
    with d l show ?thesis by simp
  next
    case ok
    from no_violation_no_open[OF ok(2) dc] du have "openOrders s u = []" by simp
    then have "length (openOrders (s @ [d\<lparr>o_id := newId s\<rparr>]) u) \<le> 1"
      by (simp add: openOrders_def)
    moreover have "newId s \<notin> set (map o_id s)"
    proof
      assume "newId s \<in> set (map o_id s)"
      then obtain y where "y \<in> set s" "o_id y = newId s" by auto
      with newId_fresh[of y s] show False by simp
    qed
    ultimately show ?thesis using d ok(1) by simp
  qed
qed

lemma Order_save_cases:
  "(\<exists>e. Order_save s d = Inl e) \<or>
   (Order_save s d = Inr (updateById s d) \<and> validOrder d \<and> \<not> violatesIndex s d)"
  by (simp add: Order_save_def)

lemma reused_fields [simp]:
  "o_id (reusedOrder x fz now) = o_id x"
  "o_userId (reusedOrder x fz now) = o_userId x"
  "o_status (reusedOrder x fz now) = o_status x"
  "o_cartHash (reusedOrder x fz now) = o_cartHash x"
  "o_attemptCount (reusedOrder x fz now) = o_attemptCount x + 1"
  "o_expiresAt (reusedOrder x fz now) = o_expiresAt x"
  by (simp_all add: reusedOrder_def)

lemma created_fields [simp]:
  "o_userId (createdOrder u fz h now) = u"
  "o_status (createdOrder u fz h now) = created"
  "o_cartHash (createdOrder u fz h now) = Some h"
  by (simp_all add: createdOrder_def)

lemma supersede_inv:
  assumes d: "distinct (map o_id s)" and l: "length (openOrders s u) \<le> 1"
    and f: "findOpen s u = Some x" and st: "st \<noteq> created"
  shows "distinct (map o_id (case Order_save s (x\<lparr>o_status := st\<rparr>) of Inl e \<Rightarrow> s | Inr s' \<Rightarrow> s')) \<and>
         length (openOrders (case Order_save s (x\<lparr>o_status := st\<rparr>) of Inl e \<Rightarrow> s | Inr s' \<Rightarrow> s') u) \<le> 1"
proof -
  from Order_save_cases[of s "x\<lparr>o_status := st\<rparr>"]
  consider (err) e where "Order_save s (x\<lparr>o_status := st\<rparr>) = Inl e"
    | (ok) "Order_save s (x\<lparr>o_status := st\<rparr>) = Inr (updateById s (x\<lparr>o_status := st\<rparr>))"
    by blast
  then show ?thesis
  proof cases
    case err
    with d l show ?thesis by simp
  next
    case ok
    have "openOrders (updateById s (x\<lparr>o_status := st\<rparr>)) u = []"
      using openOrders_update_closed[OF findOpen_single[OF l f], of "x\<lparr>o_status := st\<rparr>"] st
      by simp
    with d ok show ?thesis by (simp add: ids_updateById)
  qed
qed

lemma getOrCreate_none:
  "findOpen s u = None \<Longrightarrow>
   getOrCreateOrderFromCart H s now u cart b =
     createIn s (createdOrder u (freeze cart b)
       (computeCartHash H cart (f_shippingMethod (freeze cart b)) (f_shippingFee (freeze cart b))) now)"
  by (simp add: getOrCreateOrderFromCart_def Let_def)

lemma getOrCreate_reuse:
  "findOpen s u = Some x \<Longrightarrow> \<not> isExpiredAt now x \<Longrightarrow>
   o_cartHash x = Some (computeCartHash H cart (f_shippingMethod (freeze cart b))
                          (f_shippingFee (freeze cart b))) \<Longrightarrow>
   getOrCreateOrderFromCart H s now u cart b =
     (case Order_save s (reusedOrder x (freeze cart b) now) of
        Inl e \<Rightarrow> (s, Inl e)
      | Inr s' \<Rightarrow> (s', Inr (reusedOrder x (freeze cart b) now)))"
  by (simp add: getOrCreateOrderFromCart_def Let_def)

lemma getOrCreate_new:
  "findOpen s u = Some x \<Longrightarrow>
   isExpiredAt now x \<or>
   o_cartHash x \<noteq> Some (computeCartHash H cart (f_shippingMethod (freeze cart b))
                          (f_shippingFee (freeze cart b))) \<Longrightarrow>
   getOrCreateOrderFromCart H s now u cart b =
     createIn
       (case Order_save s (x\<lparr>o_status := (if isExpiredAt now x then expired else abandoned)\<rparr>) of
          Inl e \<Rightarrow> s | Inr s' \<Rightarrow> s')
       (createdOrder u (freeze cart b)
          (computeCartHash H cart (f_shippingMethod (freeze cart b)) (f_shippingFee (freeze cart b)))
          now)"
  unfolding getOrCreateOrderFromCart_def Let_def by (cases "isExpiredAt now x") simp_all

lemma getOrCreate_inv:
  assumes d: "distinct (map o_id s)" and l: "length (openOrders s u) \<le> 1"
  shows "distinct (map o_id (fst (getOrCreateOrderFromCart H s now u cart b))) \<and>
         length (openOrders (fst (getOrCreateOrderFromCart H s now u cart b)) u) \<le> 1"
proof (cases "findOpen s u")
  case None
  then show ?thesis
    using createIn_inv[OF d l] by (simp add: getOrCreate_none)
next
  case (Some x)
  let ?fz = "freeze cart b"
  let ?h = "computeCartHash H cart (f_shippingMethod ?fz) (f_shippingFee ?fz)"
  show ?thesis
  proof (cases "\<not> isExpiredAt now x \<and> o_cartHash x = Some ?h")
    case True
    then have g: "getOrCreateOrderFromCart H s now u cart b =
        (case Order_save s (reusedOrder x ?fz now) of
           Inl e \<Rightarrow> (s, Inl e) | Inr s' \<Rightarrow> (s', Inr (reusedOrder x ?fz now)))"
      using getOrCreate_reuse[OF Some] by blast
    from Order_save_cases[of s "reusedOrder x ?fz now"]
    consider (err) e where "Order_save s (reusedOrder x ?fz now) = Inl e"
      | (ok) "Order_save s (reusedOrder x ?fz now) = Inr (updateById s (reusedOrder x ?fz now))"
      by blast
    then show ?thesis
    proof cases
      case err
      with d l g show ?thesis by simp
    next
      case ok
      from findOpen_Some[OF Some] have xs: "x \<in> set s" by simp
      have "openOrders (updateById s (reusedOrder x ?fz now)) u
            = updateById (openOrders s u) (reusedOrder x ?fz now)"
        by (rule openOrders_update_same[OF d xs]) simp_all
      then have "length (openOrders (updateById s (reusedOrder x ?fz now)) u) \<le> 1"
        using l by (simp add: updateById_def)
      with d g ok show ?thesis by (simp add: ids_updateById)
    qed
  next
    case False
    define st where "st = (if isExpiredAt now x then expired else abandoned)"
    define s1 where "s1 = (case Order_save s (x\<lparr>o_status := st\<rparr>) of Inl e \<Rightarrow> s | Inr s' \<Rightarrow> s')"
    from False have "isExpiredAt now x \<or> o_cartHash x \<noteq> Some ?h" by blast
    from getOrCreate_new[OF Some this]
    have g: "getOrCreateOrderFromCart H s now u cart b = createIn s1 (createdOrder u ?fz ?h now)"
      by (simp add: s1_def st_def)
    have "st \<noteq> created" by (simp add: st_def)
    from supersede_inv[OF d l Some this]
    have "distinct (map o_id s1)" "length (openOrders s1 u) \<le> 1"
      by (simp_all add: s1_def)
    from createIn_inv[OF this, of "createdOrder u ?fz ?h now"] g show ?thesis by simp
  qed
qed

lemma checkouts_inv:
  assumes "distinct (map o_id s)" and "length (openOrders s u) \<le> 1"
  shows "distinct (map o_id (checkouts H s u cs)) \<and> length (openOrders (checkouts H s u cs) u) \<le> 1"
  using assms
proof (induction cs arbitrary: s)
  case Nil
  then show ?case by simp
next
  case (Cons c cs)
  obtain now cart b where c: "c = (now, cart, b)" by (cases c) auto
  from getOrCreate_inv[OF Cons.prems, of H now cart b] Cons.IH
  show ?case by (simp add: c)
qed

text \<open>
  C3. From a store with distinct identifiers that holds no order of the user in status
  \<open>created\<close>, any sequence of \<open>getOrCreateOrderFromCart\<close> calls of that user, run one
  after the other, whatever the times, carts and bodies, leaves at most one order of the
  user in status \<open>created\<close>.
\<close>

theorem at_most_one_created_order:
  assumes "distinct (map o_id s)" and "openOrders s u = []"
  shows "length (openOrders (checkouts H s u cs) u) \<le> 1"
  using checkouts_inv[of s u H cs] assms by simp

theorem at_most_one_created_order_witness:
  "distinct (map o_id ([] :: hash_payload order list)) \<and>
   openOrders ([] :: hash_payload order list) 7 = [] \<and>
   length (openOrders (checkouts plainHash [] 7
      [(1000, sessionCart twoMates, noBody), (2000, sessionCart twoMates, noBody),
       (3000, sessionCart threeMates, noBody)]) 7) \<le> 1 \<and>
   map o_status (checkouts plainHash [] 7
      [(1000, sessionCart twoMates, noBody), (2000, sessionCart twoMates, noBody),
       (3000, sessionCart threeMates, noBody)]) = [abandoned, created]"
proof -
  have 1: "distinct (map o_id ([] :: hash_payload order list))" by simp
  have 2: "openOrders ([] :: hash_payload order list) 7 = []" by (simp add: openOrders_def)
  have 3: "map o_status (checkouts plainHash [] 7
      [(1000, sessionCart twoMates, noBody), (2000, sessionCart twoMates, noBody),
       (3000, sessionCart threeMates, noBody)]) = [abandoned, created]"
    by code_simp
  show ?thesis
    by (intro conjI 1 2 3 at_most_one_created_order[OF 1 2])
qed

subsection \<open>Reuse and replacement\<close>

lemma createIn_post:
  assumes g: "createIn s d = (s1, Inr o1)" and du: "o_userId d = u" and dc: "o_status d = created"
  shows "s1 = s @ [o1] \<and> o1 = d\<lparr>o_id := newId s\<rparr> \<and> openOrders s1 u = [o1] \<and> validOrder o1"
proof -
  from createIn_cases[of s d] g
  have ok: "createIn s d = (s @ [d\<lparr>o_id := newId s\<rparr>], Inr (d\<lparr>o_id := newId s\<rparr>))"
    "validOrder (d\<lparr>o_id := newId s\<rparr>)" "\<not> violatesIndex s (d\<lparr>o_id := newId s\<rparr>)"
    by auto
  from no_violation_no_open[OF ok(3) dc] du have "openOrders s u = []" by simp
  then have "openOrders (s @ [d\<lparr>o_id := newId s\<rparr>]) u = [d\<lparr>o_id := newId s\<rparr>]"
    using du dc by (simp add: openOrders_def)
  with ok g show ?thesis by simp
qed

lemma getOrCreate_post:
  assumes d: "distinct (map o_id s)" and l: "length (openOrders s u) \<le> 1"
    and g: "getOrCreateOrderFromCart H s now u cart b = (s1, Inr o1)"
  shows "openOrders s1 u = [o1] \<and> validFrozen (freeze cart b) \<and>
         o_cartHash o1 = Some (computeCartHash H cart (f_shippingMethod (freeze cart b))
                                 (f_shippingFee (freeze cart b)))"
proof (cases "findOpen s u")
  case None
  let ?fz = "freeze cart b"
  let ?h = "computeCartHash H cart (f_shippingMethod ?fz) (f_shippingFee ?fz)"
  from g getOrCreate_none[OF None, of H now cart b]
  have "createIn s (createdOrder u ?fz ?h now) = (s1, Inr o1)" by simp
  from createIn_post[OF this, of u] show ?thesis by auto
next
  case (Some x)
  let ?fz = "freeze cart b"
  let ?h = "computeCartHash H cart (f_shippingMethod ?fz) (f_shippingFee ?fz)"
  show ?thesis
  proof (cases "\<not> isExpiredAt now x \<and> o_cartHash x = Some ?h")
    case True
    then have g': "(case Order_save s (reusedOrder x ?fz now) of
           Inl e \<Rightarrow> (s, Inl e) | Inr s' \<Rightarrow> (s', Inr (reusedOrder x ?fz now))) = (s1, Inr o1)"
      using getOrCreate_reuse[OF Some, of now H cart b] g by simp
    from Order_save_cases[of s "reusedOrder x ?fz now"] g'
    have ok: "s1 = updateById s (reusedOrder x ?fz now)" "o1 = reusedOrder x ?fz now"
      "validOrder (reusedOrder x ?fz now)"
      by auto
    from findOpen_Some[OF Some] have xs: "x \<in> set s" by simp
    have "openOrders (updateById s (reusedOrder x ?fz now)) u
            = updateById (openOrders s u) (reusedOrder x ?fz now)"
      by (rule openOrders_update_same[OF d xs]) simp_all
    then have "openOrders s1 u = [o1]"
      using findOpen_single[OF l Some] ok by (simp add: updateById_def)
    with ok True show ?thesis by simp
  next
    case False
    define st where "st = (if isExpiredAt now x then expired else abandoned)"
    define s0 where "s0 = (case Order_save s (x\<lparr>o_status := st\<rparr>) of Inl e \<Rightarrow> s | Inr s' \<Rightarrow> s')"
    from False have "isExpiredAt now x \<or> o_cartHash x \<noteq> Some ?h" by blast
    from getOrCreate_new[OF Some this] g
    have "createIn s0 (createdOrder u ?fz ?h now) = (s1, Inr o1)"
      by (simp add: s0_def st_def)
    from createIn_post[OF this, of u] show ?thesis by auto
  qed
qed

lemma freeze_shipping:
  assumes "(b_shippingMethod b2 = Some ''delivery'') = (b_shippingMethod b1 = Some ''delivery'')"
  shows "freeze cart b2 = (freeze cart b1)\<lparr>f_shippingAddressId := f_shippingAddressId (freeze cart b2)\<rparr>"
  using assms by (simp add: freeze_def Let_def)

lemma validFrozen_addr [simp]: "validFrozen (fz\<lparr>f_shippingAddressId := a\<rparr>) = validFrozen fz"
  by (simp add: validFrozen_def)

lemma single_no_violation:
  assumes "openOrders s (o_userId d) = [x]" "o_id d = o_id x"
  shows "\<not> violatesIndex s d"
proof
  assume "violatesIndex s d"
  then obtain y where "y \<in> set s" "o_id y \<noteq> o_id d" "o_userId y = o_userId d" "o_status y = created"
    by (auto simp: violatesIndex_iff)
  then have "y \<in> set (openOrders s (o_userId d))" by (simp add: openOrders_def)
  with assms \<open>o_id y \<noteq> o_id d\<close> show False by simp
qed

text \<open>
  C2. In a store with distinct identifiers and at most one order of the user in status
  \<open>created\<close>, when \<open>getOrCreateOrderFromCart\<close> has returned an order and is called again
  with the same cart and the same shipping method (so the same fee), at a time at which
  that order has not expired, the second call returns an order with the same identifier
  and an \<open>attemptCount\<close> greater by exactly 1.
\<close>

theorem repeated_checkout_reuses_order:
  assumes d: "distinct (map o_id s)" and l: "length (openOrders s u) \<le> 1"
    and g: "getOrCreateOrderFromCart H s now1 u cart b1 = (s1, Inr o1)"
    and ship: "(b_shippingMethod b2 = Some ''delivery'') = (b_shippingMethod b1 = Some ''delivery'')"
    and unexp: "\<not> isExpiredAt now2 o1"
  shows "\<exists>s2 o2. getOrCreateOrderFromCart H s1 now2 u cart b2 = (s2, Inr o2) \<and>
           o_id o2 = o_id o1 \<and> o_attemptCount o2 = o_attemptCount o1 + 1"
proof -
  let ?fz1 = "freeze cart b1" and ?fz2 = "freeze cart b2"
  from getOrCreate_post[OF d l g]
  have p: "openOrders s1 u = [o1]" "validFrozen ?fz1"
    "o_cartHash o1 = Some (computeCartHash H cart (f_shippingMethod ?fz1) (f_shippingFee ?fz1))"
    by auto
  have fz: "?fz2 = ?fz1\<lparr>f_shippingAddressId := f_shippingAddressId ?fz2\<rparr>"
    by (rule freeze_shipping[OF ship])
  have m: "f_shippingMethod ?fz2 = f_shippingMethod ?fz1" "f_shippingFee ?fz2 = f_shippingFee ?fz1"
    by (subst fz, simp)+
  have v: "validFrozen ?fz2" by (subst fz) (simp add: p(2))
  from p(1) have f: "findOpen s1 u = Some o1" by (rule single_findOpen)
  from findOpen_Some[OF f] have u: "o_userId o1 = u" by simp
  have h: "o_cartHash o1 = Some (computeCartHash H cart (f_shippingMethod ?fz2) (f_shippingFee ?fz2))"
    using p(3) m by simp
  have nv: "\<not> violatesIndex s1 (reusedOrder o1 ?fz2 now2)"
    by (rule single_no_violation[of _ _ o1]) (simp_all add: u p(1))
  have "Order_save s1 (reusedOrder o1 ?fz2 now2) = Inr (updateById s1 (reusedOrder o1 ?fz2 now2))"
    using v nv by (simp add: Order_save_def)
  with getOrCreate_reuse[OF f unexp h]
  have "getOrCreateOrderFromCart H s1 now2 u cart b2 =
          (updateById s1 (reusedOrder o1 ?fz2 now2), Inr (reusedOrder o1 ?fz2 now2))"
    by simp
  then show ?thesis by simp
qed

theorem repeated_checkout_reuses_order_witness:
  "getOrCreateOrderFromCart plainHash [] 1000 7 (sessionCart twoMates) noBody
     = ([firstOrder], Inr firstOrder) \<and>
   \<not> isExpiredAt 2000 firstOrder \<and>
   (\<exists>s2 o2. getOrCreateOrderFromCart plainHash [firstOrder] 2000 7 (sessionCart twoMates) noBody
               = (s2, Inr o2) \<and>
            o_id o2 = o_id firstOrder \<and> o_attemptCount o2 = o_attemptCount firstOrder + 1)"
proof -
  have 1: "distinct (map o_id ([] :: hash_payload order list))" by simp
  have 2: "length (openOrders ([] :: hash_payload order list) 7) \<le> 1" by (simp add: openOrders_def)
  have 3: "getOrCreateOrderFromCart plainHash [] 1000 7 (sessionCart twoMates) noBody
     = ([firstOrder], Inr firstOrder)" by code_simp
  have 4: "\<not> isExpiredAt 2000 firstOrder" by code_simp
  from repeated_checkout_reuses_order[OF 1 2 3 _ 4, of noBody] 3 4 show ?thesis by simp
qed


lemma validOrder_status [simp]: "validOrder (x\<lparr>o_status := st\<rparr>) = validOrder x"
  by (simp add: validOrder_def)



subsection \<open>Frozen totals\<close>

lemma recalc_amounts:
  "subtotal (recalc c pm) = fromCents (subtotalCents (recalc c pm)) \<and>
   total (recalc c pm) = fromCents (totalCents (recalc c pm))"
  by (simp add: recalc_def Let_def)

lemma reachable_amounts:
  "reachable c \<Longrightarrow> subtotal c = fromCents (subtotalCents c) \<and> total c = fromCents (totalCents c)"
proof (induction rule: reachable.induct)
  case r_new
  show ?case by (simp add: ensureCart_def fromCents_eq)
next
  case (r_add c product q)
  then show ?case
    using add_cases[of c product q] recalc_amounts by auto
next
  case (r_setQty c pid q product)
  then show ?case
    using setQty_cases[of c pid q product] recalc_amounts by auto
next
  case (r_remove c pid)
  show ?case unfolding remove_def by (rule recalc_amounts)
next
  case (r_clear c)
  show ?case unfolding clear_def by (rule recalc_amounts)
next
  case (r_recalc c pm)
  show ?case by (rule recalc_amounts)
qed

lemma toFixed2_hundredth: "toFixed2 (of_int n / 100) = of_int n / 100"
proof (cases "(of_int n / 100 :: rat) < 0")
  case True
  have "- (of_int n / 100 :: rat) * 100 = of_int (- n)" by simp
  then have "Math_round (- (of_int n / 100 :: rat) * 100) = - n"
    by (simp only: Math_round_of_int)
  with True show ?thesis by (simp add: toFixed2_def)
next
  case False
  have "(of_int n / 100 :: rat) * 100 = of_int n" by simp
  then have "Math_round ((of_int n / 100 :: rat) * 100) = n"
    by (simp only: Math_round_of_int)
  with False show ?thesis by (simp add: toFixed2_def)
qed

lemma toFixed2_cents: "toFixed2 (of_int k / 100 + of_int m) = of_int k / 100 + of_int m"
proof -
  define n where "n = k + 100 * m"
  have e: "(of_int k / 100 + of_int m :: rat) = of_int n / 100" by (simp add: n_def)
  show ?thesis unfolding e by (rule toFixed2_hundredth)
qed

lemma toFixed2_fromCents: "toFixed2 (fromCents k) = fromCents k"
  using toFixed2_cents[of k 0] by (simp add: fromCents_eq)

lemma freeze_sessionCart:
  assumes "reachable c"
  shows "f_subtotal (freeze (sessionCart c) b) = subtotal c \<and>
         f_total (freeze (sessionCart c) b) = total c + f_shippingFee (freeze (sessionCart c) b)"
proof -
  from reachable_amounts[OF assms] obtain k t where k: "subtotal c = fromCents k" "total c = fromCents t"
    by blast
  have "toFixed2 (fromCents t + 2000) = fromCents t + 2000"
    using toFixed2_cents[of t 2000] by (simp add: fromCents_eq)
  then show ?thesis
    by (simp add: freeze_def sessionCart_def Let_def k toFixed2_fromCents)
qed

lemma recalc_discount: "discount (recalc c pm) = fromCents (discountCents (recalc c pm))"
  by (simp add: recalc_def Let_def)

lemma reachable_discount: "reachable c \<Longrightarrow> discount c = fromCents (discountCents c)"
proof (induction rule: reachable.induct)
  case r_new
  show ?case by (simp add: ensureCart_def fromCents_eq)
next
  case (r_add c product q)
  then show ?case
    using add_cases[of c product q] recalc_discount by auto
next
  case (r_setQty c pid q product)
  then show ?case
    using setQty_cases[of c pid q product] recalc_discount by auto
next
  case (r_remove c pid)
  show ?case unfolding remove_def by (rule recalc_discount)
next
  case (r_clear c)
  show ?case unfolding clear_def by (rule recalc_discount)
next
  case (r_recalc c pm)
  show ?case by (rule recalc_discount)
qed

lemma freeze_discount:
  assumes "reachable c"
  shows "f_discount (freeze (sessionCart c) b) = discount c"
  using reachable_discount[OF assms]
  by (simp add: freeze_def sessionCart_def Let_def orElse_def toFixed2_fromCents)

lemma createIn_Inr:
  "createIn s d = (s', Inr o1) \<Longrightarrow> o1 = d\<lparr>o_id := newId s\<rparr>"
  using createIn_cases[of s d] by auto

lemma createIn_fields:
  assumes "createIn s (createdOrder u fz h now) = (s', Inr o1)"
  shows "o_subtotal o1 = f_subtotal fz \<and> o_discount o1 = f_discount fz \<and>
         o_total o1 = f_total fz \<and> o_shippingFee o1 = f_shippingFee fz"
proof -
  from createIn_Inr[OF assms] have "o1 = (createdOrder u fz h now)\<lparr>o_id := newId s\<rparr>" .
  then show ?thesis by (simp add: createdOrder_def)
qed

lemma getOrCreate_fields:
  assumes g: "getOrCreateOrderFromCart H s now u cart b = (s', Inr o1)"
  shows "o_subtotal o1 = f_subtotal (freeze cart b) \<and> o_discount o1 = f_discount (freeze cart b) \<and>
         o_total o1 = f_total (freeze cart b) \<and> o_shippingFee o1 = f_shippingFee (freeze cart b)"
proof (cases "findOpen s u")
  case None
  from g[unfolded getOrCreate_none[OF None]] show ?thesis by (rule createIn_fields)
next
  case (Some x)
  let ?fz = "freeze cart b"
  let ?h = "computeCartHash H cart (f_shippingMethod ?fz) (f_shippingFee ?fz)"
  show ?thesis
  proof (cases "\<not> isExpiredAt now x \<and> o_cartHash x = Some ?h")
    case True
    then have "(case Order_save s (reusedOrder x ?fz now) of
           Inl e \<Rightarrow> (s, Inl e) | Inr s' \<Rightarrow> (s', Inr (reusedOrder x ?fz now))) = (s', Inr o1)"
      using getOrCreate_reuse[OF Some, of now H cart b] g by simp
    then have "o1 = reusedOrder x ?fz now"
      by (auto split: sum.splits)
    then show ?thesis by (simp add: reusedOrder_def)
  next
    case False
    then have "isExpiredAt now x \<or> o_cartHash x \<noteq> Some ?h" by blast
    from g[unfolded getOrCreate_new[OF Some this]] show ?thesis by (rule createIn_fields)
  qed
qed

text \<open>
  C5, amended. For every order that \<open>getOrCreateOrderFromCart\<close> returns for a cart
  reached through \<open>CartService\<close>, the frozen total is the frozen subtotal plus the
  shipping fee; the subtotal is the cart's subtotal of final prices and the discount is
  the cart's discount, which is not subtracted. So the total equals subtotal minus
  discount plus shipping fee exactly when the discount is 0.
\<close>

theorem frozen_total_is_subtotal_plus_fee:
  assumes r: "reachable c"
    and g: "getOrCreateOrderFromCart H s now u (sessionCart c) b = (s', Inr ord)"
  shows "o_total ord = o_subtotal ord + o_shippingFee ord \<and>
         o_subtotal ord = subtotal c \<and> o_discount ord = discount c \<and>
         (o_total ord = o_subtotal ord - o_discount ord + o_shippingFee ord \<longleftrightarrow> o_discount ord = 0)"
proof -
  from reachable_totals[OF r] have t: "total c = subtotal c" by simp
  from getOrCreate_fields[OF g] freeze_sessionCart[OF r, of b] freeze_discount[OF r, of b] t
  show ?thesis by auto
qed

theorem frozen_total_is_subtotal_plus_fee_witness:
  "reachable twoMates \<and>
   getOrCreateOrderFromCart plainHash [] 1000 7 (sessionCart twoMates) noBody
     = ([firstOrder], Inr firstOrder) \<and>
   o_total firstOrder = o_subtotal firstOrder + o_shippingFee firstOrder \<and>
   o_subtotal firstOrder = subtotal twoMates \<and> o_discount firstOrder = discount twoMates \<and>
   o_discount firstOrder \<noteq> 0"
proof -
  have r: "reachable twoMates"
    unfolding twoMates_def by (rule r_add[OF r_new])
  have g: "getOrCreateOrderFromCart plainHash [] 1000 7 (sessionCart twoMates) noBody
     = ([firstOrder], Inr firstOrder)" by code_simp
  have n: "o_discount firstOrder \<noteq> 0" by code_simp
  from frozen_total_is_subtotal_plus_fee[OF r g] r g n show ?thesis by simp
qed

text \<open>
  C5, as stated, for two units of a product at 1000 with 25 percent off, picked up: the
  order has subtotal 1500, discount 500, no fee and total 1500, while subtotal minus
  discount plus fee is 1000.
\<close>

theorem frozen_total_counterexample:
  "getOrCreateOrderFromCart plainHash [] 1000 7 (sessionCart twoMates) noBody
     = ([firstOrder], Inr firstOrder) \<and>
   o_total firstOrder = 1500 \<and>
   o_subtotal firstOrder - o_discount firstOrder + o_shippingFee firstOrder = 1000"
  by code_simp

subsection \<open>The fingerprint\<close>

lemma hashItem_alt:
  "hashItem i = (if productId i = [] then None else Some (productId i), title i, price i, qty i)"
  unfolding hashItem_def by simp

lemma hashItem_eq: "hashItem i = hashItem j \<longleftrightarrow> lineKey i = lineKey j"
  unfolding hashItem_alt lineKey_def by (cases "productId i = []"; cases "productId j = []") auto

lemma map_hashItem_eq: "map hashItem xs = map hashItem ys \<longleftrightarrow> map lineKey xs = map lineKey ys"
proof (induction xs arbitrary: ys)
  case Nil
  show ?case by auto
next
  case (Cons x xs)
  show ?case by (cases ys) (auto simp: hashItem_eq Cons.IH)
qed


text \<open>
  C4, amended. \<open>computeCartHash\<close> is a function of the sequence of
  (\<open>productId\<close>, \<open>title\<close>, \<open>price\<close>, \<open>qty\<close>) of the lines, where \<open>price\<close> is the base
  unit price, and of the shipping method and fee: inputs that agree on these give the
  same digest, and inputs that differ in one of them (a base price, a quantity, the
  items or their order, the shipping choice) give different digests when \<open>H\<close>, the
  digest of the serialised object, has no collisions.
\<close>

theorem cart_hash_by_contents:
  "(map lineKey (sc_items c1) = map lineKey (sc_items c2) \<and> m1 = m2 \<and> f1 = f2
      \<longrightarrow> computeCartHash H c1 m1 f1 = computeCartHash H c2 m2 f2) \<and>
   (inj H \<and> (map lineKey (sc_items c1) \<noteq> map lineKey (sc_items c2) \<or> m1 \<noteq> m2 \<or> f1 \<noteq> f2)
      \<longrightarrow> computeCartHash H c1 m1 f1 \<noteq> computeCartHash H c2 m2 f2)"
proof (intro conjI impI)
  assume a: "map lineKey (sc_items c1) = map lineKey (sc_items c2) \<and> m1 = m2 \<and> f1 = f2"
  from a have "map hashItem (sc_items c1) = map hashItem (sc_items c2)"
    using map_hashItem_eq[of "sc_items c1" "sc_items c2"] by blast
  moreover from a have "m1 = m2" "f1 = f2" by blast+
  ultimately show "computeCartHash H c1 m1 f1 = computeCartHash H c2 m2 f2"
    unfolding computeCartHash_def by (simp only:)
next
  assume a: "inj H \<and> (map lineKey (sc_items c1) \<noteq> map lineKey (sc_items c2) \<or> m1 \<noteq> m2 \<or> f1 \<noteq> f2)"
  show "computeCartHash H c1 m1 f1 \<noteq> computeCartHash H c2 m2 f2"
  proof
    assume "computeCartHash H c1 m1 f1 = computeCartHash H c2 m2 f2"
    then have "H (map hashItem (sc_items c1), m1, f1) = H (map hashItem (sc_items c2), m2, f2)"
      unfolding computeCartHash_def .
    with a have "(map hashItem (sc_items c1), m1, f1) = (map hashItem (sc_items c2), m2, f2)"
      by (blast dest: injD)
    then have "map hashItem (sc_items c1) = map hashItem (sc_items c2)" "m1 = m2" "f1 = f2"
      by blast+
    then have "map lineKey (sc_items c1) = map lineKey (sc_items c2)" "m1 = m2" "f1 = f2"
      using map_hashItem_eq[of "sc_items c1" "sc_items c2"] by blast+
    with a show False by blast
  qed
qed

theorem cart_hash_by_contents_witness:
  "inj plainHash \<and>
   map lineKey (sc_items (sessionCart twoMates)) \<noteq> map lineKey (sc_items (sessionCart threeMates)) \<and>
   computeCartHash plainHash (sessionCart twoMates) pickup 0
     \<noteq> computeCartHash plainHash (sessionCart threeMates) pickup 0 \<and>
   map lineKey (sc_items (sessionCart twoMates)) = map lineKey (sc_items (sessionCart twoPlainMates)) \<and>
   computeCartHash plainHash (sessionCart twoMates) pickup 0
     = computeCartHash plainHash (sessionCart twoPlainMates) pickup 0"
proof -
  have i: "inj plainHash" by (simp add: inj_def plainHash_def)
  have d: "map lineKey (sc_items (sessionCart twoMates)) \<noteq> map lineKey (sc_items (sessionCart threeMates))"
    by code_simp
  have e: "map lineKey (sc_items (sessionCart twoMates)) = map lineKey (sc_items (sessionCart twoPlainMates))"
    by code_simp
  from cart_hash_by_contents[of "sessionCart twoMates" "sessionCart threeMates" pickup pickup 0 0 plainHash]
    cart_hash_by_contents[of "sessionCart twoMates" "sessionCart twoPlainMates" pickup pickup 0 0 plainHash]
    i d e
  show ?thesis by blast
qed

text \<open>
  C4, as stated: two carts of two units of the same product at 1000, one with the
  promotional final price 750 and one without promotion, have the same digest, even for
  a digest function without collisions.
\<close>

theorem cart_hash_promo_counterexample:
  "map promoPrice (items twoMates) = [Some 750] \<and> map promoPrice (items twoPlainMates) = [None] \<and>
   inj plainHash \<and>
   computeCartHash plainHash (sessionCart twoMates) pickup 0
     = computeCartHash plainHash (sessionCart twoPlainMates) pickup 0"
proof -
  have "inj plainHash" by (simp add: inj_def plainHash_def)
  moreover have "map promoPrice (items twoMates) = [Some 750]" by code_simp
  moreover have "map promoPrice (items twoPlainMates) = [None]" by code_simp
  moreover have "computeCartHash plainHash (sessionCart twoMates) pickup 0
     = computeCartHash plainHash (sessionCart twoPlainMates) pickup 0"
    by code_simp
  ultimately show ?thesis by blast
qed

section \<open>Properties of the return handlers\<close>

lemma resolveOrder_mem: "resolveOrder s p = Inr (Some x) \<Longrightarrow> x \<in> set s"
  by (auto simp: resolveOrder_def findById_def findByPreference_def Let_def find_Some_iff
      split: extref.splits option.splits)

lemma status_after_update:
  "x \<in> set s \<Longrightarrow>
   map_option o_status (findById (updateOrderMpFields s (o_id x) pa pr st) (o_id x)) = Some st"
  by (induction s) (auto simp: findById_def updateOrderMpFields_def)

text \<open>
  C1, amended. For an order in status \<open>approved\<close> that a return resolves to:
  \<open>getCheckoutSuccess\<close> leaves the status \<open>approved\<close> whatever outcome the return
  reports, \<open>getCheckoutPending\<close> sets it to \<open>pending\<close> and \<open>getCheckoutFailure\<close> sets it
  to \<open>rejected\<close>.
\<close>

theorem approved_order_after_returns:
  assumes r: "resolveOrder s p = Inr (Some x)" and a: "o_status x = approved"
  shows "map_option o_status (findById (fst (getCheckoutSuccess s sess p)) (o_id x)) = Some approved \<and>
         map_option o_status (findById (fst (getCheckoutPending s sess p)) (o_id x)) = Some pending \<and>
         map_option o_status (findById (fst (getCheckoutFailure s sess p)) (o_id x)) = Some rejected"
  using resolveOrder_mem[OF r] r a
  by (simp add: getCheckoutSuccess_def getCheckoutPending_def getCheckoutFailure_def Let_def
      status_after_update)

theorem approved_order_after_returns_witness:
  "resolveOrder [approvedOrder] pendingReturn = Inr (Some approvedOrder) \<and>
   o_status approvedOrder = approved \<and>
   map_option o_status (findById (fst (getCheckoutSuccess [approvedOrder] None pendingReturn))
                          (o_id approvedOrder)) = Some approved \<and>
   map_option o_status (findById (fst (getCheckoutPending [approvedOrder] None pendingReturn))
                          (o_id approvedOrder)) = Some pending \<and>
   map_option o_status (findById (fst (getCheckoutFailure [approvedOrder] None pendingReturn))
                          (o_id approvedOrder)) = Some rejected"
proof -
  have r: "resolveOrder [approvedOrder] pendingReturn = Inr (Some approvedOrder)" by code_simp
  have a: "o_status approvedOrder = approved" by code_simp
  from approved_order_after_returns[OF r a] r a show ?thesis by simp
qed

text \<open>
  C1, as stated: an approved order, then a return to \<open>/checkout/pending\<close> and one to
  \<open>/checkout/failure\<close> for it: the status becomes \<open>pending\<close>, and \<open>rejected\<close>.
\<close>

theorem approved_downgraded_counterexample:
  "o_status approvedOrder = approved \<and>
   map o_status (fst (getCheckoutPending [approvedOrder] None pendingReturn)) = [pending] \<and>
   map o_status (fst (getCheckoutFailure [approvedOrder] None
                        (pendingReturn\<lparr>mp_status := Some ''rejected''\<rparr>))) = [rejected]"
  by code_simp

end
